theory Spec2Isabelle
  imports Complex_Main "HOL-Library.AList" "HOL-Library.Char_ord" "HOL-Library.List_Lexorder"
begin

section \<open>The bAbI single-task script of H-Mem\<close>

text \<open>
  The development follows \<^verbatim>\<open>babi_task_single.py\<close>: the preparation of the data
  (vocabulary, size parameters, vectorisation, replication of the query over the hops),
  the learning-rate schedule, and the wiring of the four layers. The layers themselves
  (\<^verbatim>\<open>layers/encoding.py\<close>, \<^verbatim>\<open>layers/writing.py\<close>, \<^verbatim>\<open>layers/reading.py\<close>) and the
  data loader (\<^verbatim>\<open>data/babi_data.py\<close>) are imported by the script; where a property
  depends on them they are modelled from the design document, and marked so.

  Python integers are \<open>int\<close>, floats are idealised as \<open>real\<close>, words are \<open>string\<close>s
  (compared bytewise, as Python compares ASCII text), and every exception the script can
  raise in the modelled lines is a value of \<open>py_error\<close>.
\<close>

subsection \<open>Data\<close>

type_synonym word = string
type_synonym sentence = "word list"

text \<open>One example of \<^verbatim>\<open>load_task\<close>: a triple (story, query, answer).\<close>

type_synonym example = "sentence list \<times> word list \<times> word list"

datatype py_error = ValueError | TypeError | KeyError | ConfigurationError | ShapeError

text \<open>
  Python's \<^verbatim>\<open>max\<close> of an iterable: \<^verbatim>\<open>ValueError\<close> on an empty one, otherwise the
  running maximum from the first element on.
\<close>

fun py_max :: "int list \<Rightarrow> py_error + int" where
  "py_max [] = Inl ValueError"
| "py_max (x # xs) = Inr (fold max xs x)"

text \<open>The command-line arguments the modelled lines read (\<^verbatim>\<open>args\<close>).\<close>

record args =
  arg_max_num_sentences :: int
  arg_learning_rate :: real
  arg_hops :: int
  arg_memory_size :: int
  arg_embeddings_size :: int
  arg_read_before_write :: int
  arg_gamma_pos :: real
  arg_gamma_neg :: real
  arg_w_assoc_max :: real
  arg_encodings_type :: string

subsection \<open>Size parameters (lines 75 to 89 and 105)\<close>

text \<open>\<^verbatim>\<open>max_story_size = max(map(len, (s for s, _, _ in data)))\<close>\<close>

definition max_story_size :: "example list \<Rightarrow> py_error + int" where
  "max_story_size data = py_max (map (\<lambda>(s, q, a). int (length s)) data)"

text \<open>
  \<^verbatim>\<open>max_num_sentences = max_story_size if args.max_num_sentences == -1
                      else min(args.max_num_sentences, max_story_size)\<close>
\<close>

definition max_num_sentences :: "args \<Rightarrow> example list \<Rightarrow> py_error + int" where
  "max_num_sentences ar data =
     (case max_story_size data of
        Inl e \<Rightarrow> Inl e
      | Inr m \<Rightarrow> Inr (if arg_max_num_sentences ar = -1 then m
                     else min (arg_max_num_sentences ar) m))"

text \<open>
  \<^verbatim>\<open>max_sentence_size = max(map(len, chain.from_iterable(s for s, _, _ in data))) + 1\<close>
\<close>

definition max_sentence_size :: "example list \<Rightarrow> py_error + int" where
  "max_sentence_size data =
     (case py_max (map (\<lambda>t. int (length t)) (concat (map (\<lambda>(s, q, a). s) data))) of
        Inl e \<Rightarrow> Inl e
      | Inr m \<Rightarrow> Inr (m + 1))"

text \<open>\<^verbatim>\<open>max_query_size = max(map(len, (q for _, q, _ in data)))\<close>\<close>

definition max_query_size :: "example list \<Rightarrow> py_error + int" where
  "max_query_size data = py_max (map (\<lambda>(s, q, a). int (length q)) data)"

text \<open>\<^verbatim>\<open>max_words = max(max_sentence_size, max_query_size)\<close>\<close>

definition max_words :: "example list \<Rightarrow> py_error + int" where
  "max_words data =
     (case max_sentence_size data of
        Inl e \<Rightarrow> Inl e
      | Inr ms \<Rightarrow> (case max_query_size data of
                    Inl e \<Rightarrow> Inl e
                  | Inr mq \<Rightarrow> Inr (max ms mq)))"

subsection \<open>Vectorisation and the query tensor (lines 106 to 110)\<close>

text \<open>
  Modelled from the spec: \<^verbatim>\<open>vectorize_data\<close> of \<^verbatim>\<open>data/babi_data.py\<close>, which the script
  imports and calls. The design document describes its result: a sentence is a
  fixed-length sequence of word indices, padded with the nil index \<open>0\<close>; a story is padded
  (with all-nil sentences) or truncated to a fixed number of sentences; a query is a
  fixed-length sequence of word indices. Sentences and queries are padded only, never
  cut. The document does not say which sentences a truncation keeps (the first ones are
  kept here), nor how a word is looked up (the lookup is the parameter \<open>idx\<close>), nor how
  answers are encoded (left out).
\<close>

definition pad_nil :: "nat \<Rightarrow> int list \<Rightarrow> int list" where
  "pad_nil n xs = xs @ replicate (n - length xs) 0"

text \<open>Modelled from the spec: one story of \<^verbatim>\<open>vectorize_data\<close>, as described above.\<close>

definition vectorize_story :: "(word \<Rightarrow> int) \<Rightarrow> nat \<Rightarrow> nat \<Rightarrow> sentence list \<Rightarrow> int list list" where
  "vectorize_story idx n sentence_size s =
     (let rows = map (\<lambda>t. pad_nil sentence_size (map idx t)) (take n s)
      in rows @ replicate (n - length rows) (replicate sentence_size 0))"

text \<open>Modelled from the spec: one query of \<^verbatim>\<open>vectorize_data\<close>, as described above.\<close>

definition vectorize_query :: "(word \<Rightarrow> int) \<Rightarrow> nat \<Rightarrow> word list \<Rightarrow> int list" where
  "vectorize_query idx query_size q = pad_nil query_size (map idx q)"

text \<open>
  Modelled from the spec: \<^verbatim>\<open>vectorize_data(data, word_idx, max_num_sentences,
  sentence_size, query_size)\<close>, returning the story tensor and the query matrix. A
  negative size behaves as zero, as Python's \<^verbatim>\<open>[0] * n\<close> does.
\<close>

definition vectorize_data ::
  "example list \<Rightarrow> (word \<Rightarrow> int) \<Rightarrow> int \<Rightarrow> int \<Rightarrow> int \<Rightarrow> int list list list \<times> int list list" where
  "vectorize_data exs idx n sentence_size query_size =
     (map (\<lambda>(s, q, a). vectorize_story idx (nat n) (nat sentence_size) s) exs,
      map (\<lambda>(s, q, a). vectorize_query idx (nat query_size) q) exs)"

text \<open>
  Lines 105 to 107, for one part (\<^verbatim>\<open>train\<close> or \<^verbatim>\<open>test\<close>) of \<^verbatim>\<open>data = train + test\<close>:
  \<^verbatim>\<open>S, Q, A = vectorize_data(part, word_idx, max_num_sentences, max_words, max_words)\<close>.
\<close>

definition vectorize_part ::
  "args \<Rightarrow> (word \<Rightarrow> int) \<Rightarrow> example list \<Rightarrow> example list
     \<Rightarrow> py_error + (int list list list \<times> int list list)" where
  "vectorize_part ar idx data part =
     (case max_num_sentences ar data of
        Inl e \<Rightarrow> Inl e
      | Inr n \<Rightarrow> (case max_words data of
                   Inl e \<Rightarrow> Inl e
                 | Inr w \<Rightarrow> Inr (vectorize_data part idx n w w)))"

text \<open>
  Lines 109 and 110: \<^verbatim>\<open>np.repeat(np.expand_dims(Q, axis=1), args.hops, axis=1)\<close>. Each
  query row becomes a block of \<^verbatim>\<open>hops\<close> copies of itself; NumPy rejects a negative
  repeat count with \<^verbatim>\<open>ValueError\<close>.
\<close>

definition repeat_hops :: "int \<Rightarrow> 'a list \<Rightarrow> py_error + 'a list list" where
  "repeat_hops h Q = (if h < 0 then Inl ValueError else Inr (map (\<lambda>q. replicate (nat h) q) Q))"

definition query_tensor ::
  "args \<Rightarrow> (word \<Rightarrow> int) \<Rightarrow> example list \<Rightarrow> example list \<Rightarrow> py_error + int list list list" where
  "query_tensor ar idx data part =
     (case vectorize_part ar idx data part of
        Inl e \<Rightarrow> Inl e
      | Inr (S, Q) \<Rightarrow> repeat_hops (arg_hops ar) Q)"

subsection \<open>Recurrent layers (lines 165 to 180)\<close>

text \<open>
  \<^verbatim>\<open>tf.keras.layers.RNN(cell)(inputs)\<close> for one example: the cell is called once per
  entry of the time axis, in order, each call receiving the state the previous one
  returned; the layer returns the output of the last call. A cell maps an input and a
  state to an output and a new state. With an empty time axis no call is made and there
  is no output.
\<close>

fun rnn_scan :: "('x \<Rightarrow> 's \<Rightarrow> 'o \<times> 's) \<Rightarrow> 's \<Rightarrow> 'x list \<Rightarrow> ('o \<times> 's) list" where
  "rnn_scan cell s [] = []"
| "rnn_scan cell s (x # xs) = (case cell x s of (out, s') \<Rightarrow> (out, s') # rnn_scan cell s' xs)"

definition rnn :: "('x \<Rightarrow> 's \<Rightarrow> 'o \<times> 's) \<Rightarrow> 's \<Rightarrow> 'x list \<Rightarrow> 'o option" where
  "rnn cell s xs = (case rnn_scan cell s xs of [] \<Rightarrow> None | r # rs \<Rightarrow> Some (fst (last (r # rs))))"

text \<open>
  The reading stage for one example (lines 149 to 156 and 175 to 180): every hop row of
  the query tensor goes through the same embedding, encoding and normalisation, here the
  function \<open>enc\<close>, and the resulting sequence is scanned by the reading cell.
\<close>

definition reading_inputs :: "(int list \<Rightarrow> 'x) \<Rightarrow> int list list \<Rightarrow> 'x list" where
  "reading_inputs enc hop_rows = map enc hop_rows"

definition queried_value ::
  "('x \<Rightarrow> 's \<Rightarrow> 'o \<times> 's) \<Rightarrow> 's \<Rightarrow> (int list \<Rightarrow> 'x) \<Rightarrow> int list list \<Rightarrow> 'o option" where
  "queried_value cell s enc hop_rows = rnn cell s (reading_inputs enc hop_rows)"

subsection \<open>Learning-rate schedule (lines 199 to 206)\<close>

text \<open>
  \<^verbatim>\<open>lr_scheduler(epoch)\<close>, with the float arithmetic read over the reals. The flag
  \<^verbatim>\<open>args.read_before_write\<close> is an integer, true when it is not zero; the exponent of
  the second policy is \<^verbatim>\<open>tf.math.floor(epoch / 20)\<close>, the floor of a true division.
\<close>

definition lr_scheduler :: "args \<Rightarrow> int \<Rightarrow> real" where
  "lr_scheduler ar epoch =
     (if arg_read_before_write ar \<noteq> 0 then
        (if epoch < 150 then arg_learning_rate ar
         else arg_learning_rate ar * exp (0.01 * real_of_int (150 - epoch)))
      else arg_learning_rate ar * 0.85 powr real_of_int \<lfloor>real_of_int epoch / 20\<rfloor>)"

text \<open>
  The schedule in the words of the design document: the base rate before epoch 150 and
  an exponential decay from there on when reading before writing is enabled, otherwise a
  factor of \<open>0.85\<close> for every completed block of 20 epochs (an integer power of an
  integer quotient).
\<close>

definition lr_schedule_spec :: "bool \<Rightarrow> real \<Rightarrow> int \<Rightarrow> real" where
  "lr_schedule_spec enabled lr epoch =
     (if enabled then (if epoch < 150 then lr else lr * exp (0.01 * (150 - real_of_int epoch)))
      else lr * power_int 0.85 (epoch div 20))"

subsection \<open>Vocabulary (lines 72 to 86)\<close>

text \<open>The values stored in \<^verbatim>\<open>word_idx\<close> are Python integers or Python strings.\<close>

datatype py_value = PyInt int | PyStr string

text \<open>
  A Python dictionary with string keys, as the list of its items in insertion order.
  Storing under a key that is present replaces the value in place; storing under a new key
  appends an item (this is \<open>AList.update\<close>). A lookup of a missing key raises.
\<close>

type_synonym py_dict = "(word \<times> py_value) list"

definition dict_of :: "(word \<times> py_value) list \<Rightarrow> py_dict" where
  "dict_of items = foldl (\<lambda>d (k, v). AList.update k v d) [] items"

definition py_get :: "py_dict \<Rightarrow> word \<Rightarrow> py_error + py_value" where
  "py_get d k = (case map_of d k of None \<Rightarrow> Inl KeyError | Some v \<Rightarrow> Inr v)"

text \<open>\<^verbatim>\<open>list(chain.from_iterable(s)) + q + a\<close> for one example.\<close>

definition example_words :: "example \<Rightarrow> word list" where
  "example_words = (\<lambda>(s, q, a). concat s @ q @ a)"

text \<open>
  \<^verbatim>\<open>vocab = sorted(reduce(lambda x, y: x | y, (set(...) for s, q, a in data)))\<close>.
  \<^verbatim>\<open>reduce\<close> without an initial value raises \<^verbatim>\<open>TypeError\<close> on an empty sequence.
\<close>

definition vocab :: "example list \<Rightarrow> py_error + word list" where
  "vocab data =
     (case data of
        [] \<Rightarrow> Inl TypeError
      | ex # exs \<Rightarrow>
          Inr (sorted_list_of_set
                 (foldl (\<lambda>x y. x \<union> y) (set (example_words ex))
                    (map (\<lambda>e. set (example_words e)) exs))))"

text \<open>\<^verbatim>\<open>word_idx = dict((c, i + 1) for i, c in enumerate(vocab))\<close>\<close>

definition word_idx_init :: "word list \<Rightarrow> py_dict" where
  "word_idx_init v = dict_of (map (\<lambda>(i, c). (c, PyInt (int i + 1))) (enumerate 0 v))"

text \<open>Python's \<^verbatim>\<open>str\<close> of a non-negative integer: its decimal digits.\<close>

fun str_nat :: "nat \<Rightarrow> string" where
  "str_nat n =
     (if n < 10 then [''0123456789'' ! n]
      else str_nat (n div 10) @ [''0123456789'' ! (n mod 10)])"

text \<open>\<^verbatim>\<open>'time{}'.format(i+1)\<close>\<close>

definition time_word :: "nat \<Rightarrow> word" where
  "time_word i = ''time'' @ str_nat (i + 1)"

text \<open>
  \<^verbatim>\<open>for i in range(max_num_sentences):
      word_idx['time{}'.format(i+1)] = 'time{}'.format(i+1)\<close>

  The value stored under a time word is the time word itself, a string. A range of a
  negative length is empty.
\<close>

definition add_time_words :: "int \<Rightarrow> py_dict \<Rightarrow> py_dict" where
  "add_time_words n d =
     fold (\<lambda>i d. AList.update (time_word i) (PyStr (time_word i)) d) [0..<nat n] d"

text \<open>The dictionary \<^verbatim>\<open>word_idx\<close> as it stands after line 84.\<close>

definition word_idx :: "args \<Rightarrow> example list \<Rightarrow> py_error + py_dict" where
  "word_idx ar data =
     (case vocab data of
        Inl e \<Rightarrow> Inl e
      | Inr v \<Rightarrow> (case max_num_sentences ar data of
                   Inl e \<Rightarrow> Inl e
                 | Inr n \<Rightarrow> Inr (add_time_words n (word_idx_init v))))"

text \<open>\<^verbatim>\<open>vocab_size = len(word_idx) + 1\<close>\<close>

definition vocab_size :: "args \<Rightarrow> example list \<Rightarrow> py_error + int" where
  "vocab_size ar data =
     (case word_idx ar data of Inl e \<Rightarrow> Inl e | Inr d \<Rightarrow> Inr (int (length d) + 1))"

text \<open>
  Lines 182 to 185, \<^verbatim>\<open>Dense(vocab_size, use_bias=False)\<close> applied to one queried
  value: the product of the input vector with a kernel of \<open>n_units\<close> columns, whose
  entries are given by \<open>W\<close>.
\<close>

definition dense :: "int \<Rightarrow> (nat \<Rightarrow> nat \<Rightarrow> real) \<Rightarrow> real list \<Rightarrow> real list" where
  "dense n_units W x =
     map (\<lambda>j. sum_list (map (\<lambda>i. x ! i * W i j) [0..<length x])) [0..<nat n_units]"

definition outputs ::
  "args \<Rightarrow> example list \<Rightarrow> (nat \<Rightarrow> nat \<Rightarrow> real) \<Rightarrow> real list \<Rightarrow> py_error + real list" where
  "outputs ar data W x =
     (case vocab_size ar data of Inl e \<Rightarrow> Inl e | Inr v \<Rightarrow> Inr (dense v W x))"

subsection \<open>The encoding layer (lines 151 to 153)\<close>

text \<open>Modelled from the spec: the three encoding modes of the \<^verbatim>\<open>Encoding\<close> layer.\<close>

datatype encodings_type = identity_encoding | position_encoding | learned_encoding

text \<open>
  Modelled from the spec: the constructor of \<^verbatim>\<open>Encoding\<close> (\<^verbatim>\<open>layers/encoding.py\<close>, which
  the script imports). It recognises exactly the three mode names and fails with a
  configuration error on any other string; there is no default mode.
\<close>

definition Encoding :: "string \<Rightarrow> py_error + encodings_type" where
  "Encoding name =
     (if name = ''identity_encoding'' then Inr identity_encoding
      else if name = ''position_encoding'' then Inr position_encoding
      else if name = ''learned_encoding'' then Inr learned_encoding
      else Inl ConfigurationError)"

text \<open>
  Modelled from the spec: the result of the \<^verbatim>\<open>Encoding\<close> layer on one embedded sentence (a
  list of word vectors), which is either a sequence with one vector per word or a single
  vector for the sentence.
\<close>

datatype encoded = PerWord "real list list" | PerSentence "real list"

text \<open>
  Modelled from the spec: ``applies a weighting to each word embedding before summation
  across words''. The weight of component \<open>k\<close> of the word at position \<open>l\<close> is \<open>wt l k\<close>.
\<close>

definition weighted_words :: "(nat \<Rightarrow> nat \<Rightarrow> real) \<Rightarrow> real list list \<Rightarrow> real list list" where
  "weighted_words wt x =
     map (\<lambda>(l, row). map (\<lambda>(k, v). wt l k * v) (enumerate 0 row)) (enumerate 0 x)"

text \<open>Modelled from the spec: the summation across the words of a sentence.\<close>

definition sum_words :: "real list list \<Rightarrow> real list" where
  "sum_words rows = (case rows of [] \<Rightarrow> [] | r # rs \<Rightarrow> foldl (map2 (\<lambda>a b. a + b)) r rs)"

text \<open>
  Modelled from the spec: the call of the \<^verbatim>\<open>Encoding\<close> layer. The identity mode returns
  its input; the position mode weights by a fixed function \<open>position_weight\<close> of the
  sentence length and the word position (the document names the classic formula without
  giving it, so the function is a parameter; it may also depend on the component); the
  learned mode weights by the trainable weights \<open>learned_weight\<close> of the layer, one vector
  per word position.
\<close>

definition encoding_call ::
  "encodings_type \<Rightarrow> (nat \<Rightarrow> nat \<Rightarrow> nat \<Rightarrow> real) \<Rightarrow> (nat \<Rightarrow> nat \<Rightarrow> real)
     \<Rightarrow> real list list \<Rightarrow> encoded" where
  "encoding_call mode position_weight learned_weight x =
     (case mode of
        identity_encoding \<Rightarrow> PerWord x
      | position_encoding \<Rightarrow> PerSentence (sum_words (weighted_words (position_weight (length x)) x))
      | learned_encoding \<Rightarrow> PerSentence (sum_words (weighted_words learned_weight x)))"

text \<open>
  Line 151, \<^verbatim>\<open>encoding = Encoding(args.encodings_type, name='encoding')\<close>: the parser
  accepts any string for \<^verbatim>\<open>--encodings_type\<close> and the script hands it to the constructor
  unchanged.
\<close>

definition encoding :: "args \<Rightarrow> py_error + encodings_type" where
  "encoding ar = Encoding (arg_encodings_type ar)"

text \<open>
  Line 152, \<^verbatim>\<open>TimeDistributed(encoding)(story_embedded)\<close> for one story: the layer, once
  constructed, is applied to every embedded sentence.
\<close>

definition story_encoded ::
  "args \<Rightarrow> (nat \<Rightarrow> nat \<Rightarrow> nat \<Rightarrow> real) \<Rightarrow> (nat \<Rightarrow> nat \<Rightarrow> real)
     \<Rightarrow> real list list list \<Rightarrow> py_error + encoded list" where
  "story_encoded ar position_weight learned_weight story_embedded =
     (case encoding ar of
        Inl e \<Rightarrow> Inl e
      | Inr mode \<Rightarrow> Inr (map (encoding_call mode position_weight learned_weight) story_embedded))"

subsection \<open>The writing cell (lines 165 to 173)\<close>

type_synonym matrix = "real list list"

text \<open>The configuration of a \<^verbatim>\<open>WritingCell\<close>, as the script passes it.\<close>

record writing_cell =
  units :: int
  read_before_write :: bool
  gamma_pos :: real
  gamma_neg :: real
  w_assoc_max :: real

text \<open>
  \<^verbatim>\<open>WritingCell(units=args.memory_size, read_before_write=args.read_before_write,
  gamma_pos=args.gamma_pos, gamma_neg=args.gamma_neg, w_assoc_max=args.w_assoc_max, ...)\<close>
\<close>

definition WritingCell :: "args \<Rightarrow> writing_cell" where
  "WritingCell ar =
     \<lparr>units = arg_memory_size ar,
      read_before_write = (arg_read_before_write ar \<noteq> 0),
      gamma_pos = arg_gamma_pos ar,
      gamma_neg = arg_gamma_neg ar,
      w_assoc_max = arg_w_assoc_max ar\<rparr>"

text \<open>
  Modelled from the spec: the parts of the write step that the design document names
  without fixing, namely the
  read-style retrieval of step 1, the target vector bound by the write (derived from the
  retrieved content when there is one, and from the entity), and the two gates of steps 2
  and 3, which depend on \<open>gamma_pos\<close>, \<open>gamma_neg\<close>, the current memory and the entity and
  may differ from entry to entry. They are parameters of the model.
\<close>

record writing_parts =
  retrieve :: "matrix \<Rightarrow> real list \<Rightarrow> real list"
  target_vector :: "real list option \<Rightarrow> real list \<Rightarrow> nat \<Rightarrow> real"
  write_gate :: "real \<Rightarrow> real \<Rightarrow> matrix \<Rightarrow> real list \<Rightarrow> nat \<Rightarrow> nat \<Rightarrow> real"
  decay_gate :: "real \<Rightarrow> real \<Rightarrow> matrix \<Rightarrow> real list \<Rightarrow> nat \<Rightarrow> nat \<Rightarrow> real"

text \<open>Modelled from the spec: elementwise clipping to \<open>[- w, + w]\<close>.\<close>

definition clip :: "real \<Rightarrow> real \<Rightarrow> real" where
  "clip w x = min (max x (- w)) w"

text \<open>
  Modelled from the spec: one step of \<^verbatim>\<open>WritingCell\<close> (\<^verbatim>\<open>layers/writing.py\<close>, which the
  script imports), following the per-step algorithm of the design document:
  \<open>M_new = clip (M_old + write_gate * (entity \<otimes> target_vector) - decay_gate * M_old)\<close>,
  entry by entry, where row \<open>i\<close> of the memory belongs to component \<open>i\<close> of the entity.
  The retrieval of step 1 happens only with \<open>read_before_write\<close>. The step returns the
  new memory both as its output and as its state.
\<close>

definition writing_step ::
  "writing_cell \<Rightarrow> writing_parts \<Rightarrow> real list \<Rightarrow> matrix \<Rightarrow> matrix \<times> matrix" where
  "writing_step c u entity M =
     (let context = (if read_before_write c then Some (retrieve u M entity) else None);
          t = target_vector u context entity;
          wg = write_gate u (gamma_pos c) (gamma_neg c) M entity;
          dg = decay_gate u (gamma_pos c) (gamma_neg c) M entity;
          M' = map (\<lambda>(i, e, row).
                      map (\<lambda>(j, m). clip (w_assoc_max c) (m + wg i j * (e * t j) - dg i j * m))
                        (enumerate 0 row))
                 (enumerate 0 (zip entity M))
      in (M', M'))"

text \<open>
  Modelled from the spec: the memory at the start of a story, \<open>rows\<close> rows of \<open>cols\<close>
  zeros.
\<close>

definition zeros :: "nat \<Rightarrow> nat \<Rightarrow> matrix" where
  "zeros rows cols = replicate rows (replicate cols 0)"

text \<open>
  Modelled from the spec: the write recurrence over one story, started on the zero
  memory; the result lists the output and state of every step. Entity vectors have one
  component per memory row; a sequence with a vector of another length is rejected with a
  shape error before any step. The cell holds \<open>units\<close> as the integer the script passed;
  the memory has that many rows, and none when the integer is negative.
\<close>

definition writing_trace ::
  "writing_cell \<Rightarrow> writing_parts \<Rightarrow> nat \<Rightarrow> real list list \<Rightarrow> py_error + (matrix \<times> matrix) list" where
  "writing_trace c u embeddings_size entities =
     (if list_all (\<lambda>e. length e = nat (units c)) entities
      then Inr (rnn_scan (writing_step c u) (zeros (nat (units c)) embeddings_size) entities)
      else Inl ShapeError)"

text \<open>Every entry of the matrix lies in \<open>[- w, + w]\<close>.\<close>

definition entries_within :: "real \<Rightarrow> matrix \<Rightarrow> bool" where
  "entries_within w M = list_all (list_all (\<lambda>x. - w \<le> x \<and> x \<le> w)) M"

subsection \<open>A small data set\<close>

text \<open>
  One example, the scenario of the design document: the story has the single sentence
  ``john went to kitchen'', the query is ``where is john''. It serves as a concrete
  input below.
\<close>

definition demo_data :: "example list" where
  "demo_data =
     [([[''john'', ''went'', ''to'', ''kitchen'']], [''where'', ''is'', ''john''], [''kitchen''])]"

definition demo_args :: args where
  "demo_args = \<lparr>arg_max_num_sentences = -1, arg_learning_rate = 0.003, arg_hops = 2,
       arg_memory_size = 5, arg_embeddings_size = 4, arg_read_before_write = 0,
       arg_gamma_pos = 0.01, arg_gamma_neg = 0.01, arg_w_assoc_max = 1,
       arg_encodings_type = ''learned_encoding''\<rparr>"

text \<open>
  A concrete choice for the open parts of the write step (a dot-product retrieval, a
  constant large target, constant gates) and a cell with two memory rows.
\<close>

definition demo_parts :: writing_parts where
  "demo_parts = \<lparr>retrieve = (\<lambda>M e. map (\<lambda>row. sum_list (map2 (\<lambda>a b. a * b) e row)) M),
                  target_vector = (\<lambda>context e j. 1000),
                  write_gate = (\<lambda>gp gn M e i j. 1),
                  decay_gate = (\<lambda>gp gn M e i j. 1 / 2)\<rparr>"

definition demo_cell_args :: args where
  "demo_cell_args = demo_args\<lparr>arg_memory_size := 2\<rparr>"

section \<open>Properties\<close>

subsection \<open>Facts about the size parameters\<close>

lemma fold_max_Max: "fold max xs (x::int) = Max (set (x # xs))"
  using Max.set_eq_fold [of x xs] by simp

lemma py_max_nonempty: "xs \<noteq> [] \<Longrightarrow> py_max xs = Inr (Max (set xs))"
proof (cases xs)
  case Nil
  assume "xs \<noteq> []"
  with Nil show ?thesis by simp
next
  case (Cons a list)
  then show ?thesis using Max.set_eq_fold [of a list] by simp
qed

lemma max_story_size_nonempty:
  "data \<noteq> [] \<Longrightarrow>
   max_story_size data = Inr (Max ((\<lambda>(s, q, a). int (length s)) ` set data))"
  by (simp add: max_story_size_def py_max_nonempty)

lemma max_num_sentences_nonempty:
  "data \<noteq> [] \<Longrightarrow>
   max_num_sentences ar data =
     Inr (if arg_max_num_sentences ar = -1
          then Max ((\<lambda>(s, q, a). int (length s)) ` set data)
          else min (arg_max_num_sentences ar)
                 (Max ((\<lambda>(s, q, a). int (length s)) ` set data)))"
  by (simp add: max_num_sentences_def max_story_size_nonempty)

text \<open>
  Claim C9. For every non-empty data set (an empty one has no longest story: the script
  stops with an exception) and every value of \<^verbatim>\<open>--max_num_sentences\<close>, the effective
  maximum sentence count is the length of the longest story of train+test when the flag
  is \<open>-1\<close>, and the minimum of the flag and that length otherwise; it never exceeds the
  length of the longest story.
\<close>

theorem max_num_sentences_effective:
  assumes "data \<noteq> []"
  shows "\<exists>n. max_num_sentences ar data = Inr n
           \<and> n = (if arg_max_num_sentences ar = -1
                  then Max ((\<lambda>(s, q, a). int (length s)) ` set data)
                  else min (arg_max_num_sentences ar)
                         (Max ((\<lambda>(s, q, a). int (length s)) ` set data)))
           \<and> n \<le> Max ((\<lambda>(s, q, a). int (length s)) ` set data)"
  using max_num_sentences_nonempty [OF assms, of ar] by simp

theorem max_num_sentences_effective_witness:
  "max_num_sentences (demo_args\<lparr>arg_max_num_sentences := 5\<rparr>)
     (([[''mary'', ''left''], [''john'', ''slept'']], [''who''], [''mary'']) # demo_data) = Inr 2"
  using max_num_sentences_effective [of
      "([[''mary'', ''left''], [''john'', ''slept'']], [''who''], [''mary'']) # demo_data"
      "demo_args\<lparr>arg_max_num_sentences := 5\<rparr>"]
  by (simp add: demo_args_def demo_data_def)

subsection \<open>Row lengths of the vectorised data\<close>

lemma length_pad_nil: "length xs \<le> n \<Longrightarrow> length (pad_nil n xs) = n"
  by (simp add: pad_nil_def)

lemma rnn_scan_length: "length (rnn_scan cell s xs) = length xs"
  by (induction xs arbitrary: s) (auto split: prod.splits)

lemma max_sentence_size_nonempty:
  assumes "concat (map (\<lambda>(s, q, a). s) data) \<noteq> []"
  shows "max_sentence_size data =
           Inr (Max ((\<lambda>t. int (length t)) ` (\<Union>(s, q, a)\<in>set data. set s)) + 1)"
proof -
  have "set (concat (map (\<lambda>(s, q, a). s) data)) = (\<Union>(s, q, a)\<in>set data. set s)"
    by auto
  then show ?thesis using assms
    by (simp add: max_sentence_size_def py_max_nonempty)
qed

lemma max_query_size_nonempty:
  "data \<noteq> [] \<Longrightarrow>
   max_query_size data = Inr (Max ((\<lambda>(s, q, a). int (length q)) ` set data))"
  by (simp add: max_query_size_def py_max_nonempty)

lemma max_words_value:
  assumes "concat (map (\<lambda>(s, q, a). s) data) \<noteq> []"
  shows "max_words data =
           Inr (max (Max ((\<lambda>t. int (length t)) ` (\<Union>(s, q, a)\<in>set data. set s)) + 1)
                    (Max ((\<lambda>(s, q, a). int (length q)) ` set data)))"
proof -
  from assms have "data \<noteq> []" by auto
  then show ?thesis using assms
    by (simp add: max_words_def max_sentence_size_nonempty max_query_size_nonempty)
qed

lemma sentence_length_le:
  assumes "(s, q, a) \<in> set data" and "t \<in> set s"
  shows "int (length t) \<le> Max ((\<lambda>t. int (length t)) ` (\<Union>(s, q, a)\<in>set data. set s))"
proof -
  have "finite ((\<lambda>t. int (length t)) ` (\<Union>(s, q, a)\<in>set data. set s))" by auto
  moreover have "int (length t) \<in> (\<lambda>t. int (length t)) ` (\<Union>(s, q, a)\<in>set data. set s)"
    using assms by force
  ultimately show ?thesis by (rule Max_ge)
qed

lemma query_length_le:
  assumes "(s, q, a) \<in> set data"
  shows "int (length q) \<le> Max ((\<lambda>(s, q, a). int (length q)) ` set data)"
proof -
  have "finite ((\<lambda>(s, q, a). int (length q)) ` set data)" by auto
  moreover have "int (length q) \<in> (\<lambda>(s, q, a). int (length q)) ` set data"
    using assms by force
  ultimately show ?thesis by (rule Max_ge)
qed

lemma vectorize_story_rows:
  assumes "\<forall>t\<in>set s. length t < w" and "row \<in> set (vectorize_story idx n w s)"
  shows "length row = w"
proof -
  from assms(2) consider t where "t \<in> set (take n s)" "row = pad_nil w (map idx t)"
    | "row = replicate w 0"
    by (auto simp: vectorize_story_def Let_def)
  then show ?thesis
  proof cases
    case 1
    then have "t \<in> set s" by (auto dest: in_set_takeD)
    with assms(1) have "length t < w" by blast
    with 1 show ?thesis by (simp add: length_pad_nil)
  next
    case 2
    then show ?thesis by simp
  qed
qed

lemma vectorize_story_length: "length (vectorize_story idx n w s) = n"
  by (simp add: vectorize_story_def Let_def)

lemma demo_max_words: "max_words demo_data = Inr 5"
  by (simp add: demo_data_def max_words_def max_sentence_size_def max_query_size_def)
lemma demo_vectorize_part: "vectorize_part demo_args (\<lambda>w. int (length w)) demo_data demo_data
       = Inr ([[[4, 4, 2, 7, 0]]], [[5, 2, 4, 0, 0]])"
proof -
  have n: "max_num_sentences demo_args demo_data = Inr 1"
    by (simp add: max_num_sentences_def max_story_size_def demo_data_def demo_args_def)
  have "vectorize_part demo_args (\<lambda>w. int (length w)) demo_data demo_data
          = Inr (vectorize_data demo_data (\<lambda>w. int (length w)) 1 5 5)"
    by (simp only: vectorize_part_def demo_max_words n sum.case)
  also have "vectorize_data demo_data (\<lambda>w. int (length w)) 1 5 5
          = ([[[4, 4, 2, 7, 0]]], [[5, 2, 4, 0, 0]])"
    by (simp add: demo_data_def vectorize_data_def vectorize_story_def vectorize_query_def
        pad_nil_def eval_nat_numeral)
  finally show ?thesis .
qed

lemma vectorize_part_rows:
  assumes part: "set part \<subseteq> set data"
    and sent: "concat (map (\<lambda>(s, q, a). s) data) \<noteq> []"
  shows "\<exists>w S Q. max_words data = Inr w
           \<and> w = max (Max ((\<lambda>t. int (length t)) ` (\<Union>(s, q, a)\<in>set data. set s)) + 1)
                     (Max ((\<lambda>(s, q, a). int (length q)) ` set data))
           \<and> vectorize_part ar idx data part = Inr (S, Q)
           \<and> length S = length part \<and> length Q = length part
           \<and> (\<forall>story\<in>set S. \<forall>row\<in>set story. int (length row) = w)
           \<and> (\<forall>q\<in>set Q. int (length q) = w)"
proof -
  define ms where "ms = Max ((\<lambda>t. int (length t)) ` (\<Union>(s, q, a)\<in>set data. set s)) + 1"
  define mq where "mq = Max ((\<lambda>(s, q, a). int (length q)) ` set data)"
  define w where "w = max ms mq"
  from sent have ne: "data \<noteq> []" by auto
  have mw: "max_words data = Inr w"
    using max_words_value [OF sent] by (simp add: w_def ms_def mq_def)
  obtain n where n: "max_num_sentences ar data = Inr n"
    using max_num_sentences_nonempty [OF ne] by blast
  have vp: "vectorize_part ar idx data part = Inr (vectorize_data part idx n w w)"
    by (simp add: vectorize_part_def n mw)
  have sent_lt: "int (length t) < w" if "(s, q, a) \<in> set data" "t \<in> set s" for s q a t
    using sentence_length_le [OF that] by (simp add: w_def ms_def)
  have q_le: "int (length q) \<le> w" if "(s, q, a) \<in> set data" for s q a
    using query_length_le [OF that] by (simp add: w_def mq_def)
  from sent obtain s0 q0 a0 t0 where "(s0, q0, a0) \<in> set data" "t0 \<in> set s0"
    by fastforce
  then have w0: "0 \<le> w" using sent_lt [of s0 q0 a0 t0] by simp
  have rows: "int (length row) = w"
    if "story \<in> set (fst (vectorize_data part idx n w w))" "row \<in> set story" for story row
  proof -
    from that(1) obtain s q a where ex: "(s, q, a) \<in> set part"
      and st: "story = vectorize_story idx (nat n) (nat w) s"
      by (auto simp: vectorize_data_def)
    from ex part have "(s, q, a) \<in> set data" by blast
    then have "\<forall>t\<in>set s. length t < nat w" using sent_lt by fastforce
    then have "length row = nat w" using that(2) st by (blast intro: vectorize_story_rows)
    then show ?thesis using w0 by simp
  qed
  have qs: "int (length q') = w" if "q' \<in> set (snd (vectorize_data part idx n w w))" for q'
  proof -
    from that obtain s q a where ex: "(s, q, a) \<in> set part"
      and q': "q' = vectorize_query idx (nat w) q"
      by (auto simp: vectorize_data_def)
    from ex part have "(s, q, a) \<in> set data" by blast
    then have "length q \<le> nat w" using q_le [of s q a] by simp
    then show ?thesis using w0 by (simp add: q' vectorize_query_def length_pad_nil)
  qed
  have lens: "length (fst (vectorize_data part idx n w w)) = length part"
    "length (snd (vectorize_data part idx n w w)) = length part"
    by (simp_all add: vectorize_data_def)
  show ?thesis
    apply (rule exI [of _ w])
    apply (rule exI [of _ "fst (vectorize_data part idx n w w)"])
    apply (rule exI [of _ "snd (vectorize_data part idx n w w)"])
    using mw vp rows qs lens by (simp add: w_def ms_def mq_def)
qed

text \<open>
  Claim C10. Stories and queries are vectorised to one shared row length
  \<open>max_words = max (longest sentence of any story + 1) (longest query)\<close>; in the
  vectorised data of a part of the data set (\<^verbatim>\<open>train\<close> or \<^verbatim>\<open>test\<close>) every
  story-sentence row and every query row has exactly \<open>max_words\<close> entries. The data set
  must contain a sentence, since otherwise \<^verbatim>\<open>max\<close> raises and nothing is vectorised.
\<close>

theorem max_words_rows:
  assumes part: "set part \<subseteq> set data"
    and sent: "concat (map (\<lambda>(s, q, a). s) data) \<noteq> []"
  shows "\<exists>w S Q. max_words data = Inr w
           \<and> w = max (Max ((\<lambda>t. int (length t)) ` (\<Union>(s, q, a)\<in>set data. set s)) + 1)
                     (Max ((\<lambda>(s, q, a). int (length q)) ` set data))
           \<and> vectorize_part ar idx data part = Inr (S, Q)
           \<and> length S = length part \<and> length Q = length part
           \<and> (\<forall>story\<in>set S. \<forall>row\<in>set story. int (length row) = w)
           \<and> (\<forall>q\<in>set Q. int (length q) = w)"
  using part sent by (rule vectorize_part_rows)

theorem max_words_rows_witness:
  "max_words demo_data = Inr 5
   \<and> vectorize_part demo_args (\<lambda>w. int (length w)) demo_data demo_data
       = Inr ([[[4, 4, 2, 7, 0]]], [[5, 2, 4, 0, 0]])"
proof -
  have h1: "set demo_data \<subseteq> set demo_data" by simp
  have h2: "concat (map (\<lambda>(s, q, a). s) demo_data) \<noteq> []" by (simp add: demo_data_def)
  show ?thesis
    using max_words_rows [OF h1 h2, of demo_args "\<lambda>w. int (length w)"]
    by (simp add: demo_max_words demo_vectorize_part)
qed

subsection \<open>The query tensor and the reading recurrence\<close>

lemma rnn_Some: "xs \<noteq> [] \<Longrightarrow> \<exists>out. rnn cell s xs = Some out"
  by (cases xs) (auto simp: rnn_def split: prod.splits list.splits)

lemma repeat_hops_shape:
  assumes "0 \<le> h"
  shows "repeat_hops h Q = Inr (map (\<lambda>q. replicate (nat h) q) Q)"
  using assms by (simp add: repeat_hops_def)

lemma demo_query_tensor: "query_tensor demo_args (\<lambda>w. int (length w)) demo_data demo_data
       = Inr [[[5, 2, 4, 0, 0], [5, 2, 4, 0, 0]]]"
proof -
  have "query_tensor demo_args (\<lambda>w. int (length w)) demo_data demo_data
          = repeat_hops (arg_hops demo_args) [[5, 2, 4, 0, 0]]"
    by (simp only: query_tensor_def demo_vectorize_part sum.case prod.case)
  then show ?thesis
    by (simp add: repeat_hops_def demo_args_def eval_nat_numeral)
qed

lemma demo_queried_value: "queried_value ((\<lambda>mem x s. (x + s + mem, x + s + mem)) mem) 0 sum_list [[5, 2, 4, 0, 0], [5, 2, 4, 0, 0]]
       = Some (22 + 2 * (mem :: int))"
  by (simp add: queried_value_def reading_inputs_def rnn_def)

text \<open>
  Claim C3. The query tensor has shape (batch, hops, max_words); for every example all
  hop rows are equal, each being the vectorised query of that example; the reading
  recurrence therefore makes exactly \<open>hops\<close> steps, each with the same encoded query as
  input, and (for at least one hop) returns exactly one output for the example. This
  holds for any reading cell, any initial state, any memory and any per-row encoding.
\<close>

theorem query_tensor_hops:
  assumes part: "set part \<subseteq> set data"
    and sent: "concat (map (\<lambda>(s, q, a). s) data) \<noteq> []"
    and hops: "0 \<le> arg_hops ar"
  shows "\<exists>w S Q T. max_words data = Inr w
           \<and> vectorize_part ar idx data part = Inr (S, Q)
           \<and> query_tensor ar idx data part = Inr T
           \<and> length T = length part \<and> length Q = length part
           \<and> (\<forall>b<length part.
                 length (T ! b) = nat (arg_hops ar)
               \<and> (\<forall>h<nat (arg_hops ar). T ! b ! h = Q ! b \<and> int (length (T ! b ! h)) = w)
               \<and> (\<forall>h1<nat (arg_hops ar). \<forall>h2<nat (arg_hops ar). T ! b ! h1 = T ! b ! h2)
               \<and> reading_inputs enc (T ! b) = replicate (nat (arg_hops ar)) (enc (Q ! b))
               \<and> (\<forall>mem. length (rnn_scan (cell mem) s0 (reading_inputs enc (T ! b)))
                          = nat (arg_hops ar))
               \<and> (1 \<le> arg_hops ar \<longrightarrow>
                    (\<forall>mem. \<exists>out. queried_value (cell mem) s0 enc (T ! b) = Some out)))"
proof -
  from vectorize_part_rows [OF part sent, of ar idx]
  obtain w S Q where mw: "max_words data = Inr w"
    and vp: "vectorize_part ar idx data part = Inr (S, Q)"
    and lenQ: "length Q = length part"
    and qs: "\<forall>q\<in>set Q. int (length q) = w"
    by blast
  define T where "T = map (\<lambda>q. replicate (nat (arg_hops ar)) q) Q"
  have qt: "query_tensor ar idx data part = Inr T"
    using hops by (simp add: query_tensor_def vp repeat_hops_def T_def)
  have per: "length (T ! b) = nat (arg_hops ar)
               \<and> (\<forall>h<nat (arg_hops ar). T ! b ! h = Q ! b \<and> int (length (T ! b ! h)) = w)
               \<and> (\<forall>h1<nat (arg_hops ar). \<forall>h2<nat (arg_hops ar). T ! b ! h1 = T ! b ! h2)
               \<and> reading_inputs enc (T ! b) = replicate (nat (arg_hops ar)) (enc (Q ! b))
               \<and> (\<forall>mem. length (rnn_scan (cell mem) s0 (reading_inputs enc (T ! b)))
                          = nat (arg_hops ar))
               \<and> (1 \<le> arg_hops ar \<longrightarrow>
                    (\<forall>mem. \<exists>out. queried_value (cell mem) s0 enc (T ! b) = Some out))"
    if b: "b < length part" for b
  proof -
    from b lenQ have Tb: "T ! b = replicate (nat (arg_hops ar)) (Q ! b)"
      by (simp add: T_def)
    from b lenQ have "Q ! b \<in> set Q" by simp
    with qs have lq: "int (length (Q ! b)) = w" by blast
    have ri: "reading_inputs enc (T ! b) = replicate (nat (arg_hops ar)) (enc (Q ! b))"
      by (simp add: reading_inputs_def Tb)
    have out: "\<exists>out. queried_value (cell mem) s0 enc (T ! b) = Some out"
      if "1 \<le> arg_hops ar" for mem
    proof -
      from that have "reading_inputs enc (T ! b) \<noteq> []" by (simp add: ri)
      then show ?thesis unfolding queried_value_def by (rule rnn_Some)
    qed
    show ?thesis using lq out by (simp only: ri rnn_scan_length) (simp add: Tb)
  qed
  have lenT: "length T = length part" by (simp add: T_def lenQ)
  show ?thesis
    apply (rule exI [of _ w], rule exI [of _ S], rule exI [of _ Q], rule exI [of _ T])
    using mw vp qt lenT lenQ per by blast
qed

theorem query_tensor_hops_witness:
  "query_tensor demo_args (\<lambda>w. int (length w)) demo_data demo_data
       = Inr [[[5, 2, 4, 0, 0], [5, 2, 4, 0, 0]]]
   \<and> queried_value ((\<lambda>mem x s. (x + s + mem, x + s + mem)) 10) 0 sum_list
        [[5, 2, 4, 0, 0], [5, 2, 4, 0, 0]] = Some (22 + 2 * (10 :: int))"
proof -
  have h1: "set demo_data \<subseteq> set demo_data" by simp
  have h2: "concat (map (\<lambda>(s, q, a). s) demo_data) \<noteq> []" by (simp add: demo_data_def)
  have h3: "0 \<le> arg_hops demo_args" by (simp add: demo_args_def)
  show ?thesis
    using query_tensor_hops [OF h1 h2 h3, of "\<lambda>w. int (length w)" sum_list
        "\<lambda>mem x s. (x + s + mem, x + s + mem)" 0]
    by (simp add: demo_query_tensor demo_queried_value)
qed

subsection \<open>The learning-rate schedule\<close>

lemma floor_epoch: "\<lfloor>real_of_int epoch / 20\<rfloor> = epoch div 20"
  using floor_divide_of_int_eq [of epoch 20] by simp

text \<open>
  Claim C4. The learning-rate schedule is selected by \<^verbatim>\<open>read_before_write\<close>: for every
  epoch the scheduler of the script returns what the two policies of the design document
  prescribe, the base rate before epoch 150 and \<open>learning_rate * exp (0.01 * (150 - epoch))\<close>
  from epoch 150 on when the flag is set, and \<open>learning_rate * 0.85 ^ (epoch div 20)\<close>
  when it is not.
\<close>

theorem lr_scheduler_policies:
  "lr_scheduler ar epoch
     = lr_schedule_spec (arg_read_before_write ar \<noteq> 0) (arg_learning_rate ar) epoch"
proof -
  have "(0.85::real) powr real_of_int (epoch div 20) = power_int 0.85 (epoch div 20)"
    by (rule powr_real_of_int') simp_all
  then show ?thesis
    by (simp add: lr_scheduler_def lr_schedule_spec_def floor_epoch)
qed

subsection \<open>The vocabulary and the output size\<close>

lemma foldl_union: "foldl (\<lambda>x y. x \<union> y) A (map f xs) = A \<union> (\<Union>x\<in>set xs. f x)"
  by (induction xs arbitrary: A) auto

lemma vocab_nonempty:
  assumes "data \<noteq> []"
  shows "\<exists>v. vocab data = Inr v \<and> set v = (\<Union>ex\<in>set data. set (example_words ex))
           \<and> distinct v \<and> sorted v"
proof -
  from assms obtain ex exs where d: "data = ex # exs" by (cases data) auto
  define A where "A = (\<Union>ex\<in>set data. set (example_words ex))"
  have fin: "finite A" by (simp add: A_def)
  have "vocab data = Inr (sorted_list_of_set A)"
    by (simp add: d vocab_def foldl_union A_def)
  then show ?thesis using fin by (auto simp: A_def)
qed

lemma update_fresh: "k \<notin> fst ` set d \<Longrightarrow> AList.update k v d = d @ [(k, v)]"
  by (induction d) auto

lemma foldl_update_distinct:
  "distinct (map fst items) \<Longrightarrow> fst ` set d \<inter> fst ` set items = {} \<Longrightarrow>
   foldl (\<lambda>d (k, v). AList.update k v d) d items = d @ items"
proof (induction items arbitrary: d)
  case Nil
  then show ?case by simp
next
  case (Cons p items)
  obtain k v where p: "p = (k, v)" by (cases p)
  from Cons.prems have fresh: "k \<notin> fst ` set d" by (auto simp: p)
  have "foldl (\<lambda>d (k, v). AList.update k v d) (d @ [(k, v)]) items = (d @ [(k, v)]) @ items"
    using Cons.prems by (intro Cons.IH) (auto simp: p)
  then show ?case by (simp add: p update_fresh [OF fresh])
qed

lemma dict_of_distinct: "distinct (map fst items) \<Longrightarrow> dict_of items = items"
  using foldl_update_distinct [of items "[]"] by (simp add: dict_of_def)

lemma enumerate_items:
  "map (\<lambda>(i, c). (c, PyInt (int i + 1))) (enumerate 0 v)
     = zip v (map (\<lambda>i. PyInt (int i + 1)) [0..<length v])"
  by (simp add: enumerate_eq_zip zip_map2 zip_commute [of v] zip_map1 case_prod_unfold)

lemma word_idx_init_distinct:
  assumes "distinct v"
  shows "word_idx_init v = zip v (map (\<lambda>i. PyInt (int i + 1)) [0..<length v])"
proof -
  have "map fst (zip v (map (\<lambda>i. PyInt (int i + 1)) [0..<length v])) = v" by simp
  with assms show ?thesis
    by (simp add: word_idx_init_def enumerate_items dict_of_distinct)
qed

lemma word_idx_init_lookup:
  assumes "distinct v" and "k < length v"
  shows "map_of (word_idx_init v) (v ! k) = Some (PyInt (int k + 1))"
  using assms map_of_zip_nth [of v "map (\<lambda>i. PyInt (int i + 1)) [0..<length v]" k]
  by (simp add: word_idx_init_distinct)

lemma fold_update_lookup:
  "map_of (fold (\<lambda>i d. AList.update (f i) (PyStr (f i)) d) is d) k
     = (if k \<in> f ` set is then Some (PyStr k) else map_of d k)"
  by (induction "is" arbitrary: d) (auto simp: update_conv')

lemma add_time_words_lookup:
  "map_of (add_time_words n d) k
     = (if k \<in> time_word ` {0..<nat n} then Some (PyStr k) else map_of d k)"
  by (simp add: add_time_words_def fold_update_lookup)

lemma length_dense: "int (length (dense n W x)) = max 0 n"
  by (simp add: dense_def)

text \<open>
  Claim C5, as amended. For a non-empty data set the vocabulary holds exactly the words of
  train+test, without repetition, and line 73 gives the \<open>k\<close>-th of them the integer
  index \<open>k + 1\<close>, so distinct words get distinct indices from 1 on. After the loop of
  lines 83 and 84 the dictionary has a key \<open>time{i}\<close> for every \<open>i\<close> from 1 to
  \<open>max_num_sentences\<close>, and the value stored under it is the string \<open>time{i}\<close> itself,
  not an integer; every word of the data that is not spelled like one of these time words
  keeps its integer index. \<open>vocab_size\<close> is the number of keys plus one, and the output
  layer returns a vector of exactly that length.
\<close>

theorem word_idx_contents:
  assumes "data \<noteq> []"
  shows "\<exists>v n d. vocab data = Inr v
           \<and> set v = (\<Union>ex\<in>set data. set (example_words ex)) \<and> distinct v
           \<and> (\<forall>k<length v. py_get (word_idx_init v) (v ! k) = Inr (PyInt (int k + 1)))
           \<and> max_num_sentences ar data = Inr n
           \<and> word_idx ar data = Inr d
           \<and> (\<forall>k<length v. v ! k \<notin> time_word ` {0..<nat n} \<longrightarrow>
                 py_get d (v ! k) = Inr (PyInt (int k + 1)))
           \<and> (\<forall>i<nat n. py_get d (''time'' @ str_nat (i + 1))
                          = Inr (PyStr (''time'' @ str_nat (i + 1))))
           \<and> vocab_size ar data = Inr (int (length d) + 1)
           \<and> (\<forall>W x. \<exists>y. outputs ar data W x = Inr y
                          \<and> int (length y) = int (length d) + 1)"
proof -
  from vocab_nonempty [OF assms] obtain v where v: "vocab data = Inr v"
    and sv: "set v = (\<Union>ex\<in>set data. set (example_words ex))" and dv: "distinct v"
    by blast
  obtain n where n: "max_num_sentences ar data = Inr n"
    using max_num_sentences_nonempty [OF assms] by blast
  define d where "d = add_time_words n (word_idx_init v)"
  have wi: "word_idx ar data = Inr d" by (simp add: word_idx_def v n d_def)
  have vs: "vocab_size ar data = Inr (int (length d) + 1)" by (simp add: vocab_size_def wi)
  have init: "\<forall>k<length v. py_get (word_idx_init v) (v ! k) = Inr (PyInt (int k + 1))"
    using dv by (simp add: py_get_def word_idx_init_lookup)
  have keep: "\<forall>k<length v. v ! k \<notin> time_word ` {0..<nat n} \<longrightarrow>
                 py_get d (v ! k) = Inr (PyInt (int k + 1))"
    using dv by (simp add: py_get_def d_def add_time_words_lookup word_idx_init_lookup)
  have times: "\<forall>i<nat n. py_get d (''time'' @ str_nat (i + 1))
                          = Inr (PyStr (''time'' @ str_nat (i + 1)))"
  proof (intro allI impI)
    fix i assume "i < nat n"
    then have "time_word i \<in> time_word ` {0..<nat n}" by simp
    then have "py_get d (time_word i) = Inr (PyStr (time_word i))"
      by (simp add: py_get_def d_def add_time_words_lookup)
    then show "py_get d (''time'' @ str_nat (i + 1)) = Inr (PyStr (''time'' @ str_nat (i + 1)))"
      by (simp only: time_word_def)
  qed
  have out: "\<forall>W x. \<exists>y. outputs ar data W x = Inr y \<and> int (length y) = int (length d) + 1"
    by (simp add: outputs_def vs length_dense)
  show ?thesis
    apply (rule exI [of _ v], rule exI [of _ n], rule exI [of _ d])
    using v sv dv init n wi keep times vs out by blast
qed

lemma demo_word_idx:
  "word_idx demo_args demo_data =
     Inr [(''is'', PyInt 1), (''john'', PyInt 2), (''kitchen'', PyInt 3), (''to'', PyInt 4),
          (''went'', PyInt 5), (''where'', PyInt 6), (''time1'', PyStr ''time1'')]"
  by code_simp

text \<open>
  The claim as first stated has every time word mapped to an integer index. On the small
  data set the dictionary is the one shown in \<open>demo_word_idx\<close>: the entry for
  \<open>time1\<close> holds the string \<open>time1\<close>.
\<close>

theorem word_idx_time_word_counterexample:
  "(case word_idx demo_args demo_data of Inl e \<Rightarrow> Inl e | Inr d \<Rightarrow> py_get d ''time1'')
     = Inr (PyStr ''time1'')"
  by code_simp

theorem word_idx_contents_witness:
  "vocab_size demo_args demo_data = Inr 8
   \<and> outputs demo_args demo_data (\<lambda>i j. real i + real j) [1, 2]
       = Inr [2, 5, 8, 11, 14, 17, 20, 23]"
proof -
  have h: "demo_data \<noteq> []" by (simp add: demo_data_def)
  have vs: "vocab_size demo_args demo_data = Inr 8"
    by (simp add: vocab_size_def demo_word_idx)
  have "dense 8 (\<lambda>i j. real i + real j) [1, 2] = [2, 5, 8, 11, 14, 17, 20, 23]"
    by (simp add: dense_def upt_conv_Cons)
  then have "outputs demo_args demo_data (\<lambda>i j. real i + real j) [1, 2]
       = Inr [2, 5, 8, 11, 14, 17, 20, 23]"
    by (simp add: outputs_def vs)
  with vs show ?thesis using word_idx_contents [OF h, of demo_args] by simp
qed

subsection \<open>The memory written by the writing cell\<close>

lemma clip_bounds: "0 \<le> w \<Longrightarrow> - w \<le> clip w x \<and> clip w x \<le> w"
  by (simp add: clip_def)

lemma clip_zero: "0 \<le> w \<Longrightarrow> clip w 0 = 0"
  by (simp add: clip_def)

lemma writing_step_same: "fst (writing_step c u e M) = snd (writing_step c u e M)"
  by (simp add: writing_step_def Let_def)

lemma writing_step_within:
  assumes "0 \<le> w_assoc_max c"
  shows "entries_within (w_assoc_max c) (fst (writing_step c u e M))"
  using assms
  by (auto simp: writing_step_def Let_def entries_within_def list_all_iff clip_bounds)

lemma rnn_scan_outputs:
  assumes "\<And>x s. P (fst (cell x s))" and "\<And>x s. P (snd (cell x s))"
  shows "\<forall>(out, st)\<in>set (rnn_scan cell s xs). P out \<and> P st"
proof (induction xs arbitrary: s)
  case Nil
  show ?case by simp
next
  case (Cons x xs)
  obtain out st where c: "cell x s = (out, st)" by (cases "cell x s")
  have "P out" "P st" using assms(1) [of x s] assms(2) [of x s] by (simp_all add: c)
  with Cons.IH [of st] show ?case by (simp add: c)
qed

lemma writing_scan_within:
  assumes "0 \<le> w_assoc_max c"
  shows "\<forall>(out, st)\<in>set (rnn_scan (writing_step c u) M0 entities).
           entries_within (w_assoc_max c) out \<and> entries_within (w_assoc_max c) st"
proof (rule rnn_scan_outputs)
  fix x s
  show "entries_within (w_assoc_max c) (fst (writing_step c u x s))"
    using assms by (rule writing_step_within)
  then show "entries_within (w_assoc_max c) (snd (writing_step c u x s))"
    by (simp add: writing_step_same [symmetric])
qed

lemma map_enumerate_replicate:
  assumes "\<And>i. f (i, a) = b"
  shows "map f (enumerate n (replicate k a)) = replicate k b"
  by (rule nth_equalityI) (simp_all add: nth_enumerate_eq assms)

lemma zero_rows:
  assumes "0 \<le> w"
  shows "map (\<lambda>(i, e, row). map (\<lambda>(j, m). clip w (m + wg i j * (e * t j) - dg i j * m))
                               (enumerate 0 row))
           (enumerate 0 (replicate n (0, replicate k 0))) = zeros n k"
proof -
  have row: "map (\<lambda>(j, m). clip w (m + wg i j * (0 * t j) - dg i j * m))
               (enumerate 0 (replicate k 0)) = replicate k 0" for i
    by (rule map_enumerate_replicate) (simp add: clip_zero [OF assms])
  have "map (\<lambda>(i, e, row). map (\<lambda>(j, m). clip w (m + wg i j * (e * t j) - dg i j * m))
                               (enumerate 0 row))
           (enumerate 0 (replicate n (0, replicate k 0))) = replicate n (replicate k 0)"
    by (rule map_enumerate_replicate) (simp only: prod.case row)
  then show ?thesis by (simp only: zeros_def)
qed

lemma writing_step_zero:
  assumes "0 \<le> w_assoc_max c"
  shows "writing_step c u (replicate n 0) (zeros n k) = (zeros n k, zeros n k)"
proof -
  have z: "zip (replicate n (0::real)) (zeros n k) = replicate n (0, replicate k 0)"
    by (simp add: zeros_def zip_replicate)
  show ?thesis
    unfolding writing_step_def Let_def z
    by (simp only: zero_rows [OF assms])
qed

lemma rnn_scan_fixed:
  assumes "\<And>x. x \<in> set xs \<Longrightarrow> cell x s = (s, s)"
  shows "rnn_scan cell s xs = replicate (length xs) (s, s)"
  using assms by (induction xs) simp_all

text \<open>
  Claim C1. For every valid configuration (\<open>w_assoc_max > 0\<close>) and every sequence of
  entity vectors, whatever their magnitude, every entry of the memory matrix that a step
  of the writing cell produces lies in \<open>[- w_assoc_max, + w_assoc_max]\<close>: this holds for
  the output and the state of every step of the recurrence, from any starting memory, and
  in particular for every step of the recurrence over a story, which returns one memory
  per entity vector. It holds for any retrieval, target vector and gates.
\<close>

theorem memory_matrix_bounded:
  assumes "0 < arg_w_assoc_max ar"
  shows "(\<forall>M0. \<forall>(out, st)\<in>set (rnn_scan (writing_step (WritingCell ar) u) M0 entities).
             entries_within (arg_w_assoc_max ar) out \<and> entries_within (arg_w_assoc_max ar) st)
       \<and> (list_all (\<lambda>e. length e = nat (arg_memory_size ar)) entities \<longrightarrow>
            (\<exists>tr. writing_trace (WritingCell ar) u E entities = Inr tr
                \<and> length tr = length entities
                \<and> (\<forall>(out, st)\<in>set tr. entries_within (arg_w_assoc_max ar) out
                                       \<and> entries_within (arg_w_assoc_max ar) st)))"
proof -
  have w: "0 \<le> w_assoc_max (WritingCell ar)" "w_assoc_max (WritingCell ar) = arg_w_assoc_max ar"
    "nat (units (WritingCell ar)) = nat (arg_memory_size ar)"
    using assms by (simp_all add: WritingCell_def)
  have scan: "\<forall>(out, st)\<in>set (rnn_scan (writing_step (WritingCell ar) u) M0 entities).
             entries_within (arg_w_assoc_max ar) out \<and> entries_within (arg_w_assoc_max ar) st"
    for M0
    using writing_scan_within [OF w(1), of u M0 entities] by (simp only: w(2))
  show ?thesis
    using scan by (simp add: writing_trace_def w(3) rnn_scan_length)
qed

lemma demo_trace:
  "writing_trace (WritingCell demo_cell_args) demo_parts 2 [[1000000, - 1000000], [3, 0]]
     = Inr [([[1, 1], [- 1, - 1]], [[1, 1], [- 1, - 1]]),
            ([[1, 1], [- 1 / 2, - 1 / 2]], [[1, 1], [- 1 / 2, - 1 / 2]])]"
  by (simp add: writing_trace_def WritingCell_def demo_cell_args_def demo_args_def demo_parts_def
      writing_step_def Let_def zeros_def clip_def enumerate_eq_zip upt_conv_Cons
      eval_nat_numeral)

theorem memory_matrix_bounded_witness:
  "writing_trace (WritingCell demo_cell_args) demo_parts 2 [[1000000, - 1000000], [3, 0]]
     = Inr [([[1, 1], [- 1, - 1]], [[1, 1], [- 1, - 1]]),
            ([[1, 1], [- 1 / 2, - 1 / 2]], [[1, 1], [- 1 / 2, - 1 / 2]])]
   \<and> entries_within (arg_w_assoc_max demo_cell_args) [[1, 1], [- 1 / 2, - 1 / 2]]"
proof -
  have h: "0 < arg_w_assoc_max demo_cell_args"
    by (simp add: demo_cell_args_def demo_args_def)
  have s: "list_all (\<lambda>e. length e = nat (arg_memory_size demo_cell_args))
             [[1000000, - 1000000], [3, 0::real]]"
    by (simp add: demo_cell_args_def demo_args_def)
  show ?thesis
    using memory_matrix_bounded [OF h, of demo_parts "[[1000000, - 1000000], [3, 0]]" 2] s
    by (simp add: demo_trace)
qed

text \<open>
  Claim C2. For both settings of \<open>read_before_write\<close> (any value of the flag), if every
  entity vector of a story is the zero vector, then starting from the zero memory the
  memory after every step of the writing cell is the zero matrix. The clipping bound must
  not be negative, as in every valid configuration.
\<close>

theorem zero_entities_zero_memory:
  assumes "0 \<le> arg_w_assoc_max ar"
    and "\<forall>e\<in>set entities. e = replicate (nat (arg_memory_size ar)) 0"
  shows "writing_trace (WritingCell (ar\<lparr>arg_read_before_write := rbw\<rparr>)) u E entities
           = Inr (replicate (length entities)
                    (zeros (nat (arg_memory_size ar)) E, zeros (nat (arg_memory_size ar)) E))"
proof -
  define c where "c = WritingCell (ar\<lparr>arg_read_before_write := rbw\<rparr>)"
  have w: "0 \<le> w_assoc_max c" and un: "nat (units c) = nat (arg_memory_size ar)"
    using assms(1) by (simp_all add: c_def WritingCell_def)
  have shapes: "list_all (\<lambda>e. length e = nat (units c)) entities"
    using assms(2) by (auto simp: list_all_iff un)
  have "rnn_scan (writing_step c u) (zeros (nat (units c)) E) entities
          = replicate (length entities) (zeros (nat (units c)) E, zeros (nat (units c)) E)"
  proof (rule rnn_scan_fixed)
    fix x assume "x \<in> set entities"
    with assms(2) have "x = replicate (nat (units c)) 0" by (simp add: un)
    then show "writing_step c u x (zeros (nat (units c)) E) = (zeros (nat (units c)) E, zeros (nat (units c)) E)"
      using writing_step_zero [OF w] by simp
  qed
  then show ?thesis
    using shapes by (simp add: writing_trace_def un flip: c_def)
qed

theorem zero_entities_zero_memory_witness:
  "writing_trace (WritingCell (demo_cell_args\<lparr>arg_read_before_write := 1\<rparr>)) demo_parts 3
       [[0, 0], [0, 0]]
     = Inr [([[0, 0, 0], [0, 0, 0]], [[0, 0, 0], [0, 0, 0]]),
            ([[0, 0, 0], [0, 0, 0]], [[0, 0, 0], [0, 0, 0]])]"
proof -
  have h1: "0 \<le> arg_w_assoc_max demo_cell_args"
    by (simp add: demo_cell_args_def demo_args_def)
  have h2: "\<forall>e\<in>set [[0, 0], [0, 0::real]]. e = replicate (nat (arg_memory_size demo_cell_args)) 0"
    by (simp add: demo_cell_args_def demo_args_def eval_nat_numeral)
  show ?thesis
    using zero_entities_zero_memory [OF h1 h2, of 1 demo_parts 3]
    by (simp add: demo_cell_args_def demo_args_def zeros_def eval_nat_numeral)
qed

subsection \<open>The encoding layer\<close>

text \<open>
  Claim C6. Constructing the encoding layer with an \<open>encodings_type\<close> outside the three
  recognised names fails with a configuration error: the constructor returns the error,
  so does line 151 of the script, and no sentence is encoded by any fallback mode.
\<close>

theorem encoding_invalid_type:
  assumes "arg_encodings_type ar
             \<notin> {''identity_encoding'', ''position_encoding'', ''learned_encoding''}"
  shows "Encoding (arg_encodings_type ar) = Inl ConfigurationError
       \<and> encoding ar = Inl ConfigurationError
       \<and> story_encoded ar position_weight learned_weight story_embedded
           = Inl ConfigurationError"
  using assms by (simp add: Encoding_def encoding_def story_encoded_def)

theorem encoding_invalid_type_witness:
  "story_encoded (demo_args\<lparr>arg_encodings_type := ''sum_encoding''\<rparr>)
     (\<lambda>L l k. 1) (\<lambda>l k. 1) [[[1, 2], [3, 4]]] = Inl ConfigurationError"
proof -
  have h: "arg_encodings_type (demo_args\<lparr>arg_encodings_type := ''sum_encoding''\<rparr>)
             \<notin> {''identity_encoding'', ''position_encoding'', ''learned_encoding''}"
    by simp
  show ?thesis
    using encoding_invalid_type [OF h, of "\<lambda>L l k. 1" "\<lambda>l k. 1" "[[[1, 2], [3, 4]]]"]
    by simp
qed

lemma Encoding_valid:
  "Encoding ''identity_encoding'' = Inr identity_encoding"
  "Encoding ''position_encoding'' = Inr position_encoding"
  "Encoding ''learned_encoding'' = Inr learned_encoding"
  by (simp_all add: Encoding_def)

text \<open>
  Claim C7. In the identity mode the encoding layer returns its input: the output has the
  per-word shape and is the input tensor itself, for every input; applied over a story it
  leaves every embedded sentence as it is.
\<close>

theorem identity_encoding_passthrough:
  "encoding (ar\<lparr>arg_encodings_type := ''identity_encoding''\<rparr>) = Inr identity_encoding
   \<and> encoding_call identity_encoding position_weight learned_weight x = PerWord x
   \<and> story_encoded (ar\<lparr>arg_encodings_type := ''identity_encoding''\<rparr>)
        position_weight learned_weight story_embedded = Inr (map PerWord story_embedded)"
proof -
  have "encoding_call identity_encoding position_weight learned_weight = PerWord"
    by (rule ext) (simp add: encoding_call_def)
  then show ?thesis
    by (simp add: encoding_def story_encoded_def Encoding_valid)
qed

lemma demo_position_encoding:
  "encoding_call position_encoding (\<lambda>L l k. real L + real l + real k) learned_weight
     [[1, 2], [3, 4]] = PerSentence [11, 22]"
  by (simp add: encoding_call_def weighted_words_def sum_words_def enumerate_eq_zip
      upt_conv_Cons)

lemma demo_learned_encoding:
  "encoding_call learned_encoding (\<lambda>L l k. real L + real l + real k) (\<lambda>l k. c)
     [[1, 2], [3, 4]] = PerSentence [4 * c, 6 * c]"
  by (simp add: encoding_call_def weighted_words_def sum_words_def enumerate_eq_zip
      upt_conv_Cons algebra_simps)

end
